theory Spec2Isabelle
  imports Main
begin

section \<open>Python strings\<close>

text \<open>
  A Python \<open>str\<close> is a sequence of Unicode code points, and \<open>len\<close> counts code points;
  a string is therefore a list of natural numbers. ASCII literals of the source are
  written through \<open>ascii\<close>.
\<close>

type_synonym pystr = "nat list"

definition ascii :: "string \<Rightarrow> pystr" where
  "ascii s = map of_char s"

definition AT :: nat where
  "AT = 64"

definition LF :: nat where
  "LF = 10"

definition SP :: nat where
  "SP = 32"

text \<open>
  The characters removed by \<open>str.strip()\<close> without argument: U+0009..U+000D,
  U+001C..U+0020, U+0085, U+00A0, U+1680, U+2000..U+200A, U+2028, U+2029, U+202F,
  U+205F and U+3000.
\<close>

definition whitespace :: "nat list" where
  "whitespace = [9, 10, 11, 12, 13, 28, 29, 30, 31, 32, 133, 160, 5760,
     8192, 8193, 8194, 8195, 8196, 8197, 8198, 8199, 8200, 8201, 8202,
     8232, 8233, 8239, 8287, 12288]"

definition is_space :: "nat \<Rightarrow> bool" where
  "is_space c = (c \<in> set whitespace)"

definition strip :: "pystr \<Rightarrow> pystr" where
  "strip s = rev (dropWhile is_space (rev (dropWhile is_space s)))"

text \<open>
  \<open>s.split(sep)\<close> for a one-character separator. The result is never the empty list
  (\<open>split_on_nonempty\<close>), so the first branch of the case is never taken.
\<close>

fun split_on :: "nat \<Rightarrow> pystr \<Rightarrow> pystr list" where
  "split_on sep [] = [[]]"
| "split_on sep (c # cs) =
     (if c = sep then [] # split_on sep cs
      else (case split_on sep cs of [] \<Rightarrow> [[c]] | piece # pieces \<Rightarrow> (c # piece) # pieces))"

fun join :: "pystr \<Rightarrow> pystr list \<Rightarrow> pystr" where
  "join sep [] = []"
| "join sep [x] = x"
| "join sep (x # y # ys) = x @ sep @ join sep (y # ys)"

definition endswith :: "pystr \<Rightarrow> pystr \<Rightarrow> bool" where
  "endswith s suffix = (length suffix \<le> length s \<and> drop (length s - length suffix) s = suffix)"

text \<open>
  \<open>str.lower()\<close> follows the Unicode case tables, which are not part of the program:
  the lowering function is a parameter of everything that calls it. \<open>ascii_lower\<close>
  is its restriction to ASCII, used to run the definitions on ASCII inputs.
\<close>

definition ascii_lower :: "pystr \<Rightarrow> pystr" where
  "ascii_lower s = map (\<lambda>c. if 65 \<le> c \<and> c \<le> 90 then c + 32 else c) s"

section \<open>EmailAddress\<close>

datatype error = ValueError | TypeError

datatype EmailAddress = EmailAddress (address: pystr)

definition VALID_DOMAINS :: "pystr list" where
  "VALID_DOMAINS = [ascii ''.com'', ascii ''.ru'', ascii ''.net'']"

definition normalize :: "(pystr \<Rightarrow> pystr) \<Rightarrow> pystr \<Rightarrow> pystr" where
  "normalize lower addr = lower (strip addr)"

definition validate :: "pystr \<Rightarrow> error + unit" where
  "validate a =
     (if AT \<notin> set a then Inl ValueError
      else if \<not> list_ex (endswith a) VALID_DOMAINS then Inl ValueError
      else Inr ())"

definition EmailAddress_init :: "(pystr \<Rightarrow> pystr) \<Rightarrow> pystr \<Rightarrow> error + EmailAddress" where
  "EmailAddress_init lower addr =
     (let a = normalize lower addr
      in case validate a of Inl e \<Rightarrow> Inl e | Inr _ \<Rightarrow> Inr (EmailAddress a))"

text \<open>
  \<open>local_part, domain = self._address.split("@")\<close> unpacks exactly two values; any other
  number of pieces raises \<open>ValueError\<close>.
\<close>

definition masked :: "EmailAddress \<Rightarrow> error + pystr" where
  "masked self =
     (case split_on AT (address self) of
        [local_part, domain] \<Rightarrow> Inr ((take 2 local_part @ ascii ''***'') @ [AT] @ domain)
      | _ \<Rightarrow> Inl ValueError)"

section \<open>Values and objects\<close>

datatype Status = DRAFT | READY | SENT | FAILED | INVALID

text \<open>
  The immutable values that can stand where the program expects an \<open>EmailAddress\<close>
  (the annotations are not enforced at run time): the sender, and the elements of a
  recipients list. An \<open>EmailAddress\<close> has no mutating operation (its only attribute is
  read through a property without setter, and it is hashable), so it is a value as
  well. Mutable objects in these places (a list as sender, a list inside the recipients
  list) are outside the model.
\<close>

datatype pyval = Addr EmailAddress | StrV pystr | IntV int | NoneV | TupleV "pyval list"

text \<open>
  The \<open>recipients\<close> argument of the constructor: an immutable value, or a list object,
  given by its elements (the constructor only reads it).
\<close>

datatype pyarg = Val pyval | ListArg "pyval list"

fun truthy :: "pyval \<Rightarrow> bool" where
  "truthy (Addr a) = True"
| "truthy (StrV s) = (s \<noteq> [])"
| "truthy (IntV i) = (i \<noteq> 0)"
| "truthy NoneV = False"
| "truthy (TupleV xs) = (xs \<noteq> [])"

fun isinstance_EmailAddress :: "pyval \<Rightarrow> bool" where
  "isinstance_EmailAddress (Addr a) = True"
| "isinstance_EmailAddress v = False"

text \<open>
  \<open>Email\<close> objects and list objects are mutable and have an identity: they live in a
  store and are handled through references. A reference is the index of the object in
  its store; allocation appends, so that a new object never takes the place of an old
  one. \<open>date\<close> holds a reading of the clock.
\<close>

type_synonym ref = nat

type_synonym datetime = nat

record Email =
  subject :: pystr
  body :: pystr
  sender :: pyval
  recipients :: ref
  date :: datetime
  short_body :: pystr
  status :: Status

record heap =
  email_objs :: "Email list"
  list_objs :: "pyval list list"

definition new_list :: "pyval list \<Rightarrow> heap \<Rightarrow> ref \<times> heap" where
  "new_list xs h = (length (list_objs h), h\<lparr>list_objs := list_objs h @ [xs]\<rparr>)"

definition new_email :: "Email \<Rightarrow> heap \<Rightarrow> ref \<times> heap" where
  "new_email e h = (length (email_objs h), h\<lparr>email_objs := email_objs h @ [e]\<rparr>)"

definition get_email :: "heap \<Rightarrow> ref \<Rightarrow> Email" where
  "get_email h r = email_objs h ! r"

definition get_list :: "heap \<Rightarrow> ref \<Rightarrow> pyval list" where
  "get_list h l = list_objs h ! l"

definition set_email :: "ref \<Rightarrow> Email \<Rightarrow> heap \<Rightarrow> heap" where
  "set_email r e h = h\<lparr>email_objs := (email_objs h)[r := e]\<rparr>"

text \<open>A reference to an \<open>Email\<close> object of the store, whose recipients list is in the store.\<close>

definition valid_email :: "heap \<Rightarrow> ref \<Rightarrow> bool" where
  "valid_email h r = (r < length (email_objs h) \<and> recipients (get_email h r) < length (list_objs h))"

section \<open>Email\<close>

text \<open>
  \<open>__post_init__\<close>: a single address becomes a new one-element list, a list is copied
  into a new list whatever its elements are, anything else raises \<open>TypeError\<close>.
\<close>

fun post_init :: "pyarg \<Rightarrow> heap \<Rightarrow> error + (ref \<times> heap)" where
  "post_init (Val (Addr a)) h = Inr (new_list [Addr a] h)"
| "post_init (ListArg xs) h = Inr (new_list xs h)"
| "post_init (Val v) h = Inl TypeError"

text \<open>
  The generated \<open>__init__\<close> followed by \<open>__post_init__\<close>; \<open>d\<close> is the \<open>date\<close> argument,
  by default the clock at construction. When \<open>__post_init__\<close> raises, no object is
  left behind.
\<close>

definition Email_init ::
  "pystr \<Rightarrow> pystr \<Rightarrow> pyval \<Rightarrow> pyarg \<Rightarrow> datetime \<Rightarrow> heap \<Rightarrow> error + (ref \<times> heap)" where
  "Email_init subj bdy sndr rcpts d h =
     (case post_init rcpts h of
        Inl e \<Rightarrow> Inl e
      | Inr (l, h') \<Rightarrow>
          Inr (new_email \<lparr>subject = subj, body = bdy, sender = sndr, recipients = l,
                 date = d, short_body = [], status = DRAFT\<rparr> h'))"

definition clean_text :: "pystr \<Rightarrow> pystr" where
  "clean_text text = join [SP] (filter (\<lambda>line. line \<noteq> []) (map strip (split_on LF text)))"

definition add_short_body :: "Email \<Rightarrow> Email" where
  "add_short_body self =
     (if body self = [] then self\<lparr>short_body := []\<rparr>
      else let cleaned_body = clean_text (body self)
           in if length cleaned_body \<le> 50 then self\<lparr>short_body := cleaned_body\<rparr>
              else self\<lparr>short_body := take 47 cleaned_body @ ascii ''...''\<rparr>)"

text \<open>
  The body of \<open>prepare\<close> on the fields of the object, given the elements \<open>rs\<close> of its
  recipients list.
\<close>

definition prepare_fields :: "pyval list \<Rightarrow> Email \<Rightarrow> Email" where
  "prepare_fields rs self0 =
     (let self1 = self0\<lparr>subject := clean_text (subject self0)\<rparr>;
          self2 = self1\<lparr>body := clean_text (body self1)\<rparr>;
          self3 = add_short_body self2
      in if subject self3 \<noteq> [] \<and> body self3 \<noteq> [] \<and> truthy (sender self3) \<and> rs \<noteq> []
            \<and> list_all isinstance_EmailAddress rs
         then self3\<lparr>status := READY\<rparr>
         else self3\<lparr>status := INVALID\<rparr>)"

text \<open>\<open>prepare\<close> mutates the object in place.\<close>

definition prepare :: "ref \<Rightarrow> heap \<Rightarrow> heap" where
  "prepare self h =
     set_email self (prepare_fields (get_list h (recipients (get_email h self))) (get_email h self)) h"

section \<open>EmailService\<close>

text \<open>
  \<open>copy.deepcopy(email)\<close>: a new \<open>Email\<close> object with a new recipients list; the
  elements of the list and the other fields are immutable values.
\<close>

definition deepcopy :: "ref \<Rightarrow> heap \<Rightarrow> ref \<times> heap" where
  "deepcopy email h =
     (let src = get_email h email;
          (l, h1) = new_list (get_list h (recipients src)) h
      in new_email (src\<lparr>recipients := l\<rparr>) h1)"

text \<open>
  One round of the loop of \<open>send_email\<close>; \<open>now\<close> is the clock reading of this round.
\<close>

definition send_one :: "datetime \<Rightarrow> ref \<Rightarrow> pyval \<Rightarrow> heap \<Rightarrow> ref \<times> heap" where
  "send_one now email recipient h =
     (let (email_copy, h1) = deepcopy email h;
          (l, h2) = new_list [recipient] h1;
          h3 = set_email email_copy ((get_email h2 email_copy)\<lparr>recipients := l\<rparr>) h2;
          h4 = set_email email_copy ((get_email h3 email_copy)\<lparr>date := now\<rparr>) h3;
          h5 = (if status (get_email h4 email_copy) = READY
                then set_email email_copy ((get_email h4 email_copy)\<lparr>status := SENT\<rparr>) h4
                else set_email email_copy ((get_email h4 email_copy)\<lparr>status := FAILED\<rparr>) h4)
      in (email_copy, h5))"

text \<open>
  The loop runs over the elements of the recipients list of \<open>email\<close>, read when the loop
  starts (no round touches that list, see \<open>send_email_old\<close>); the \<open>k\<close>-th round reads
  the clock \<open>clock k\<close> and appends its copy to \<open>sent_emails\<close>.
\<close>

fun send_loop ::
  "(nat \<Rightarrow> datetime) \<Rightarrow> ref \<Rightarrow> pyval list \<Rightarrow> nat \<Rightarrow> ref list \<Rightarrow> heap \<Rightarrow> ref list \<times> heap" where
  "send_loop clock email [] k sent_emails h = (sent_emails, h)"
| "send_loop clock email (recipient # rest) k sent_emails h =
     (let (email_copy, h') = send_one (clock k) email recipient h
      in send_loop clock email rest (Suc k) (sent_emails @ [email_copy]) h')"

definition send_email :: "(nat \<Rightarrow> datetime) \<Rightarrow> ref \<Rightarrow> heap \<Rightarrow> ref list \<times> heap" where
  "send_email clock email h =
     send_loop clock email (get_list h (recipients (get_email h email))) 0 [] h"

text \<open>\<open>email.recipients\<close> read through the store: the elements of the list object.\<close>

definition recipient_list :: "heap \<Rightarrow> ref \<Rightarrow> pyval list" where
  "recipient_list h email = get_list h (recipients (get_email h email))"

section \<open>The statements to compare with\<close>

text \<open>
  The preview as the specification words it: empty for an empty cleaned body, the
  cleaned body itself up to 50 characters, otherwise its first 47 characters and
  three dots.
\<close>

definition spec_short_body :: "pystr \<Rightarrow> pystr" where
  "spec_short_body cleaned =
     (if cleaned = [] then []
      else if length cleaned \<le> 50 then cleaned
      else take 47 cleaned @ ascii ''...'')"

text \<open>
  The shapes of \<open>recipients\<close> that the specification lets the constructor accept: a
  single address, or a sequence of addresses (read as a list, which is the reading
  closest to the code).
\<close>

fun spec_recipients_shape :: "pyarg \<Rightarrow> bool" where
  "spec_recipients_shape (Val (Addr a)) = True"
| "spec_recipients_shape (ListArg xs) = list_all isinstance_EmailAddress xs"
| "spec_recipients_shape (Val v) = False"



text \<open>
  What a round of the loop of \<open>send_email\<close> leaves in the store for the original
  \<open>src\<close>: the copy with its own list \<open>l\<close>, its clock reading and its final status.
\<close>

definition sent_copy :: "Email \<Rightarrow> ref \<Rightarrow> datetime \<Rightarrow> Email" where
  "sent_copy src l now =
     src\<lparr>recipients := l, date := now, status := (if status src = READY then SENT else FAILED)\<rparr>"

section \<open>Example data\<close>

definition addr_a :: pyval where
  "addr_a = Addr (EmailAddress (ascii ''a@example.com''))"

definition addr_b :: pyval where
  "addr_b = Addr (EmailAddress (ascii ''b@example.com''))"

definition addr_c :: pyval where
  "addr_c = Addr (EmailAddress (ascii ''c@example.ru''))"

definition example_clock :: "nat \<Rightarrow> datetime" where
  "example_clock k = 100 + k"

definition empty_store :: heap where
  "empty_store = \<lparr>email_objs = [], list_objs = []\<rparr>"

text \<open>
  A store with one message from \<open>a@example.com\<close> to \<open>b@example.com\<close> and
  \<open>c@example.ru\<close>, with the given status, subject, body and preview.
\<close>

definition store_with :: "Status \<Rightarrow> pystr \<Rightarrow> pystr \<Rightarrow> pystr \<Rightarrow> heap" where
  "store_with s subj bdy short =
     \<lparr>email_objs = [\<lparr>subject = subj, body = bdy, sender = addr_a, recipients = 0, date = 7,
                      short_body = short, status = s\<rparr>],
      list_objs = [[addr_b, addr_c]]\<rparr>"

definition raw_subject :: pystr where
  "raw_subject = ascii ''  Hi  '' @ [LF] @ ascii '' there ''"

definition draft_store :: heap where
  "draft_store = store_with DRAFT raw_subject (ascii ''Hello'') []"

definition ready_store :: heap where
  "ready_store = store_with READY (ascii ''Hi there'') (ascii ''Hello'') (ascii ''Hello'')"

definition long_text :: pystr where
  "long_text = ascii ''AAAAAAAAAAAAAAAAAAAAAAAAAAAAAAAAAAAAAAAAAAAAAAABCDE''"

definition fifty_text :: pystr where
  "fifty_text = ascii ''BBBBBBBBBBBBBBBBBBBBBBBBBBBBBBBBBBBBBBBBBBBBBBBBBB''"

section \<open>Properties of the string operations\<close>

lemmas str_eval =
  ascii_def ascii_lower_def strip_def is_space_def whitespace_def AT_def LF_def SP_def endswith_def

lemma split_on_no_sep: "sep \<notin> set s \<Longrightarrow> split_on sep s = [s]"
  by (induction s) auto

lemma split_on_append: "sep \<notin> set xs \<Longrightarrow> split_on sep (xs @ sep # ys) = xs # split_on sep ys"
  by (induction xs) auto

lemma split_on_nonempty: "split_on sep s \<noteq> []"
  by (induction s) (auto split: list.splits)

lemma split_on_pieces: "p \<in> set (split_on sep s) \<Longrightarrow> sep \<notin> set p"
proof (induction s arbitrary: p)
  case Nil
  then show ?case by simp
next
  case (Cons c cs)
  obtain q qs where q: "split_on sep cs = q # qs"
    using split_on_nonempty [of sep cs] by (cases "split_on sep cs") auto
  show ?case
  proof (cases "c = sep")
    case True
    with Cons show ?thesis by auto
  next
    case False
    with Cons.prems q have "p = c # q \<or> p \<in> set qs" by simp
    then show ?thesis
    proof
      assume "p = c # q"
      moreover have "sep \<notin> set q" using Cons.IH [of q] q by simp
      ultimately show ?thesis using False by auto
    next
      assume "p \<in> set qs"
      then show ?thesis using Cons.IH [of p] q by simp
    qed
  qed
qed

lemma set_strip: "set (strip s) \<subseteq> set s"
proof -
  have "set (strip s) \<subseteq> set (dropWhile is_space s)"
    unfolding strip_def using set_dropWhileD by fastforce
  also have "\<dots> \<subseteq> set s" using set_dropWhileD by fastforce
  finally show ?thesis .
qed

lemma strip_last: "strip s \<noteq> [] \<Longrightarrow> \<not> is_space (last (strip s))"
  unfolding strip_def by (simp add: last_rev hd_dropWhile)

lemma last_dropWhile: "dropWhile P xs \<noteq> [] \<Longrightarrow> last (dropWhile P xs) = last xs"
  by (induction xs) (auto split: if_splits)

lemma strip_hd: "strip s \<noteq> [] \<Longrightarrow> \<not> is_space (hd (strip s))"
proof -
  assume ne: "strip s \<noteq> []"
  let ?t = "dropWhile is_space s"
  from ne have d: "dropWhile is_space (rev ?t) \<noteq> []" by (simp add: strip_def)
  have t: "?t \<noteq> []"
  proof
    assume e: "?t = []"
    have "dropWhile is_space (rev ?t) = []" by (simp only: e rev.simps dropWhile.simps)
    with d show False by contradiction
  qed
  have "hd (strip s) = last (dropWhile is_space (rev ?t))"
    using d by (simp add: strip_def hd_rev)
  also have "\<dots> = last (rev ?t)" using d by (rule last_dropWhile)
  also have "\<dots> = hd ?t" using t by (simp add: last_rev)
  finally show ?thesis using t hd_dropWhile [of is_space s] by simp
qed

lemma strip_id:
  assumes "s \<noteq> []" and "\<not> is_space (hd s)" and "\<not> is_space (last s)"
  shows "strip s = s"
proof -
  have 1: "dropWhile is_space s = s" using assms by (cases s) auto
  have "rev s \<noteq> []" and "\<not> is_space (hd (rev s))" using assms by (simp_all add: hd_rev)
  then have 2: "dropWhile is_space (rev s) = rev s" by (cases "rev s") auto
  show ?thesis by (simp add: strip_def 1 2)
qed

lemma join_nonempty: "ls \<noteq> [] \<Longrightarrow> \<forall>l \<in> set ls. l \<noteq> [] \<Longrightarrow> join sep ls \<noteq> []"
  by (induction sep ls rule: join.induct) auto

lemma hd_join: "ls \<noteq> [] \<Longrightarrow> \<forall>l \<in> set ls. l \<noteq> [] \<Longrightarrow> hd (join sep ls) = hd (hd ls)"
  by (induction sep ls rule: join.induct) auto

lemma last_join: "ls \<noteq> [] \<Longrightarrow> \<forall>l \<in> set ls. l \<noteq> [] \<Longrightarrow> last (join sep ls) = last (last ls)"
  by (induction sep ls rule: join.induct) (auto simp: join_nonempty)

lemma set_join: "set (join sep ls) \<subseteq> set sep \<union> \<Union> (set ` set ls)"
  by (induction sep ls rule: join.induct) auto

lemma clean_text_empty: "clean_text [] = []"
  by (simp add: clean_text_def strip_def)

text \<open>
  A cleaned text has no line break and neither starts nor ends with white space, so
  cleaning it again splits it into one line, which \<open>strip\<close> leaves as it is.
\<close>

lemma clean_text_idem: "clean_text (clean_text t) = clean_text t"
proof -
  let ?ls = "filter (\<lambda>line. line \<noteq> []) (map strip (split_on LF t))"
  have c: "clean_text t = join [SP] ?ls" by (simp add: clean_text_def)
  show ?thesis
  proof (cases "?ls = []")
    case True
    then show ?thesis using c by (simp add: clean_text_empty)
  next
    case False
    have ne: "\<forall>l \<in> set ?ls. l \<noteq> []" by simp
    have lines: "\<forall>l \<in> set ?ls. LF \<notin> set l \<and> \<not> is_space (hd l) \<and> \<not> is_space (last l)"
      using split_on_pieces [of _ LF t] set_strip strip_hd strip_last by fastforce
    have "hd ?ls \<in> set ?ls" and "last ?ls \<in> set ?ls"
      using False by (rule hd_in_set, rule last_in_set)
    with lines have h: "\<not> is_space (hd (hd ?ls))" and l: "\<not> is_space (last (last ?ls))"
      by blast+
    have n: "clean_text t \<noteq> []" using c False ne join_nonempty by metis
    have hd: "\<not> is_space (hd (clean_text t))" using c h hd_join [OF False ne] by simp
    have la: "\<not> is_space (last (clean_text t))" using c l last_join [OF False ne] by simp
    have "LF \<notin> set (clean_text t)"
      using c set_join [of "[SP]" ?ls] lines by (auto simp: SP_def LF_def)
    then have "split_on LF (clean_text t) = [clean_text t]" by (rule split_on_no_sep)
    then have "clean_text (clean_text t) =
        join [SP] (filter (\<lambda>line. line \<noteq> []) [strip (clean_text t)])"
      by (simp add: clean_text_def)
    also have "\<dots> = clean_text t" using strip_id [OF n hd la] n by simp
    finally show ?thesis .
  qed
qed

section \<open>Properties of the store operations\<close>

lemmas heap_defs =
  new_list_def new_email_def get_email_def get_list_def set_email_def recipient_list_def

lemma add_short_body_eq:
  "add_short_body e = e\<lparr>short_body := spec_short_body (clean_text (body e))\<rparr>"
  by (simp add: add_short_body_def spec_short_body_def Let_def clean_text_empty)

lemma prepare_fields_eq:
  "prepare_fields rs e =
     e\<lparr>subject := clean_text (subject e), body := clean_text (body e),
       short_body := spec_short_body (clean_text (body e)),
       status := (if clean_text (subject e) \<noteq> [] \<and> clean_text (body e) \<noteq> [] \<and> truthy (sender e)
                     \<and> rs \<noteq> [] \<and> list_all isinstance_EmailAddress rs
                  then READY else INVALID)\<rparr>"
  by (simp add: prepare_fields_def add_short_body_eq Let_def clean_text_idem)

lemma prepare_fields_idem: "prepare_fields rs (prepare_fields rs e) = prepare_fields rs e"
  by (simp add: prepare_fields_eq clean_text_idem)

lemma prepare_fields_recipients: "recipients (prepare_fields rs e) = recipients e"
  by (simp add: prepare_fields_eq)

lemma send_one_eq:
  "send_one now email recipient h =
     (length (email_objs h),
      h\<lparr>email_objs := email_objs h @ [sent_copy (get_email h email) (Suc (length (list_objs h))) now],
        list_objs := list_objs h @ [get_list h (recipients (get_email h email)), [recipient]]\<rparr>)"
  by (simp add: send_one_def deepcopy_def heap_defs sent_copy_def Let_def)

text \<open>
  The loop in closed form: round \<open>i\<close> appends one \<open>Email\<close> object and two list objects
  (the list made by \<open>deepcopy\<close>, then the one-element list), and nothing else changes.
\<close>

lemma send_loop_eq:
  assumes "valid_email h email"
  shows "send_loop clock email rs k sent h =
     (sent @ [length (email_objs h) ..< length (email_objs h) + length rs],
      h\<lparr>email_objs := email_objs h @
           map (\<lambda>i. sent_copy (get_email h email) (length (list_objs h) + 2 * i + 1) (clock (k + i)))
               [0 ..< length rs],
        list_objs := list_objs h @
           concat (map (\<lambda>r. [get_list h (recipients (get_email h email)), [r]]) rs)\<rparr>)"
  using assms
proof (induction rs arbitrary: k sent h)
  case Nil
  then show ?case by simp
next
  case (Cons r rs)
  let ?src = "get_email h email"
  let ?orig = "get_list h (recipients ?src)"
  define h' where "h' = h\<lparr>email_objs := email_objs h @ [sent_copy ?src (Suc (length (list_objs h))) (clock k)],
                             list_objs := list_objs h @ [?orig, [r]]\<rparr>"
  have s1: "send_one (clock k) email r h = (length (email_objs h), h')"
    by (simp add: send_one_eq h'_def)
  have v: "valid_email h' email"
    using Cons.prems by (simp add: h'_def valid_email_def get_email_def nth_append)
  have e: "get_email h' email = ?src"
    using Cons.prems by (simp add: h'_def valid_email_def get_email_def nth_append)
  have l: "get_list h' (recipients ?src) = ?orig"
    using Cons.prems by (simp add: h'_def valid_email_def get_email_def get_list_def nth_append)
  have m: "map f [0 ..< Suc n] = f 0 # map (\<lambda>i. f (Suc i)) [0 ..< n]" for f :: "nat \<Rightarrow> Email" and n
    by (simp add: upt_conv_Cons map_Suc_upt [symmetric] del: upt_Suc)
  have u: "[n ..< Suc (n + j)] = n # [Suc n ..< Suc (n + j)]" for n j :: nat
    by (simp add: upt_conv_Cons del: upt_Suc)
  have "send_loop clock email (r # rs) k sent h =
          send_loop clock email rs (Suc k) (sent @ [length (email_objs h)]) h'"
    by (simp add: s1)
  also have "\<dots> =
     ((sent @ [length (email_objs h)]) @ [length (email_objs h') ..< length (email_objs h') + length rs],
      h'\<lparr>email_objs := email_objs h' @
           map (\<lambda>i. sent_copy (get_email h' email) (length (list_objs h') + 2 * i + 1) (clock (Suc k + i)))
               [0 ..< length rs],
        list_objs := list_objs h' @
           concat (map (\<lambda>r. [get_list h' (recipients (get_email h' email)), [r]]) rs)\<rparr>)"
    by (rule Cons.IH [OF v])
  also have "\<dots> =
     (sent @ [length (email_objs h) ..< length (email_objs h) + length (r # rs)],
      h\<lparr>email_objs := email_objs h @
           map (\<lambda>i. sent_copy ?src (length (list_objs h) + 2 * i + 1) (clock (k + i)))
               [0 ..< length (r # rs)],
        list_objs := list_objs h @ concat (map (\<lambda>r. [?orig, [r]]) (r # rs))\<rparr>)"
    unfolding e l by (simp add: h'_def m u del: upt_Suc)
  finally show ?case .
qed

lemma send_email_eq:
  assumes "valid_email h email"
  shows "send_email clock email h =
     ([length (email_objs h) ..< length (email_objs h) + length (recipient_list h email)],
      h\<lparr>email_objs := email_objs h @
           map (\<lambda>i. sent_copy (get_email h email) (length (list_objs h) + 2 * i + 1) (clock i))
               [0 ..< length (recipient_list h email)],
        list_objs := list_objs h @
           concat (map (\<lambda>r. [recipient_list h email, [r]]) (recipient_list h email))\<rparr>)"
  by (simp add: send_email_def send_loop_eq [OF assms] recipient_list_def)

lemma length_concat_pairs: "length (concat (map (\<lambda>r. [a, [r]]) xs)) = 2 * length xs"
  by (induction xs) auto

lemma nth_concat_pairs: "i < length xs \<Longrightarrow> concat (map (\<lambda>r. [a, [r]]) xs) ! (2 * i + 1) = [xs ! i]"
proof (induction xs arbitrary: i)
  case Nil
  then show ?case by simp
next
  case (Cons x xs)
  then show ?case by (cases i) auto
qed

lemma send_email_sent:
  "valid_email h email \<Longrightarrow>
   fst (send_email clock email h) =
     [length (email_objs h) ..< length (email_objs h) + length (recipient_list h email)]"
  by (simp add: send_email_eq)

lemma send_email_lengths:
  assumes "valid_email h email"
  shows "length (email_objs (snd (send_email clock email h))) =
           length (email_objs h) + length (recipient_list h email)"
    and "length (list_objs (snd (send_email clock email h))) =
           length (list_objs h) + 2 * length (recipient_list h email)"
  by (simp_all add: send_email_eq [OF assms] length_concat_pairs)

lemma send_email_old:
  assumes "valid_email h email"
  shows "take (length (email_objs h)) (email_objs (snd (send_email clock email h))) = email_objs h"
    and "take (length (list_objs h)) (list_objs (snd (send_email clock email h))) = list_objs h"
  by (simp_all add: send_email_eq [OF assms])

lemma send_email_copy:
  assumes "valid_email h email" and "i < length (recipient_list h email)"
  shows "get_email (snd (send_email clock email h)) (length (email_objs h) + i) =
           sent_copy (get_email h email) (length (list_objs h) + 2 * i + 1) (clock i)"
  using assms(2) by (simp add: send_email_eq [OF assms(1)] get_email_def)

lemma send_email_copy_list:
  assumes "valid_email h email" and "i < length (recipient_list h email)"
  shows "get_list (snd (send_email clock email h)) (length (list_objs h) + 2 * i + 1) =
           [recipient_list h email ! i]"
  using assms(2) nth_concat_pairs [of i "recipient_list h email" "recipient_list h email"]
  by (simp add: send_email_eq [OF assms(1)] get_list_def nth_append)


lemma send_email_copy_status:
  assumes "valid_email h email" and "c \<in> set (fst (send_email clock email h))"
  shows "status (get_email (snd (send_email clock email h)) c) =
           (if status (get_email h email) = READY then SENT else FAILED)"
proof -
  from assms obtain i where i: "i < length (recipient_list h email)"
    and c: "c = length (email_objs h) + i"
    by (auto simp: send_email_sent dest: less_imp_add_positive le_Suc_ex)
  show ?thesis unfolding c send_email_copy [OF assms(1) i] by (simp add: sent_copy_def)
qed

section \<open>Properties of EmailAddress\<close>

text \<open>
  C4. Construction normalises first (strip, then lower) and raises \<open>ValueError\<close> (the
  spec's InvalidAddress) exactly when the normalised string has no \<open>@\<close> or ends with
  none of \<open>.com\<close>, \<open>.ru\<close>, \<open>.net\<close>; it raises nothing else, and on success the stored
  value is the raw string stripped and lowered. This holds for every lowering function.
\<close>

theorem EmailAddress_init_spec:
  "(EmailAddress_init lower raw = Inl ValueError \<longleftrightarrow>
      AT \<notin> set (lower (strip raw)) \<or>
      \<not> (endswith (lower (strip raw)) (ascii ''.com'') \<or> endswith (lower (strip raw)) (ascii ''.ru'')
          \<or> endswith (lower (strip raw)) (ascii ''.net'')))
   \<and> (EmailAddress_init lower raw \<noteq> Inl ValueError \<longrightarrow>
        EmailAddress_init lower raw = Inr (EmailAddress (lower (strip raw))))"
  by (auto simp: EmailAddress_init_def normalize_def validate_def VALID_DOMAINS_def Let_def
           split: if_splits sum.splits)

theorem EmailAddress_init_spec_witness:
  "EmailAddress_init ascii_lower (ascii ''  Aleks@Example.COM  '') =
     Inr (EmailAddress (ascii ''aleks@example.com''))
   \<and> EmailAddress_init ascii_lower (ascii ''test@example.org'') = Inl ValueError
   \<and> EmailAddress_init ascii_lower (ascii ''invalid'') = Inl ValueError"
  using EmailAddress_init_spec [of ascii_lower "ascii ''  Aleks@Example.COM  ''"]
        EmailAddress_init_spec [of ascii_lower "ascii ''test@example.org''"]
        EmailAddress_init_spec [of ascii_lower "ascii ''invalid''"]
  by (simp add: str_eval)

text \<open>
  With exactly one \<open>@\<close>, \<open>masked\<close> returns the first two characters of the local part
  (fewer when it is shorter), then \<open>***\<close>, \<open>@\<close> and the domain.
\<close>

lemma masked_one_at:
  assumes "AT \<notin> set local_part" and "AT \<notin> set domain"
  shows "masked (EmailAddress (local_part @ [AT] @ domain)) =
           Inr (take 2 local_part @ ascii ''***'' @ [AT] @ domain)"
  using assms by (simp add: masked_def split_on_append split_on_no_sep)

text \<open>
  C1. \<open>masked\<close> does not return for every address the constructor accepts: the
  constructor accepts \<open>a@b@c.com\<close> (it has an \<open>@\<close> and ends with \<open>.com\<close>), the split at
  \<open>@\<close> then has three pieces, and unpacking them into two names raises \<open>ValueError\<close>.
\<close>

theorem masked_multi_at_raises:
  "EmailAddress_init ascii_lower (ascii ''a@b@c.com'') = Inr (EmailAddress (ascii ''a@b@c.com''))
   \<and> masked (EmailAddress (ascii ''a@b@c.com'')) = Inl ValueError"
  by (simp add: EmailAddress_init_def normalize_def validate_def masked_def VALID_DOMAINS_def
        str_eval)

section \<open>Facts about the example data\<close>

lemma store_with_valid: "valid_email (store_with s subj bdy short) 0"
  by (simp add: store_with_def valid_email_def get_email_def)

lemma store_with_email:
  "get_email (store_with s subj bdy short) 0 =
     \<lparr>subject = subj, body = bdy, sender = addr_a, recipients = 0, date = 7,
      short_body = short, status = s\<rparr>"
  by (simp add: store_with_def get_email_def)

lemma store_with_recipients: "recipient_list (store_with s subj bdy short) 0 = [addr_b, addr_c]"
  by (simp add: store_with_def heap_defs)

lemma store_with_sent: "fst (send_email clock 0 (store_with s subj bdy short)) = [1, 2]"
  by (simp add: send_email_sent [OF store_with_valid] store_with_recipients)
     (simp add: store_with_def upt_rec)

lemma prepare_store_with:
  "prepare 0 (store_with s subj bdy short) =
     store_with (if clean_text subj \<noteq> [] \<and> clean_text bdy \<noteq> [] then READY else INVALID)
       (clean_text subj) (clean_text bdy) (spec_short_body (clean_text bdy))"
  by (simp add: prepare_def prepare_fields_eq store_with_def heap_defs addr_a_def addr_b_def
        addr_c_def)

lemma clean_text_examples:
  "clean_text raw_subject = ascii ''Hi there''"
  "clean_text (ascii ''Hello'') = ascii ''Hello''"
  by (simp_all add: clean_text_def raw_subject_def str_eval)

lemma hello_clean: "clean_text (ascii ''Hello'') \<noteq> []"
  unfolding clean_text_examples by (simp add: ascii_def)

lemma clean_text_hi: "clean_text (ascii ''Hi'') \<noteq> []"
  by (simp add: clean_text_def str_eval)

lemma prepare_draft_store: "prepare 0 draft_store = ready_store"
  by (simp add: draft_store_def ready_store_def prepare_store_with clean_text_examples
        spec_short_body_def)
     (simp add: ascii_def)

section \<open>Properties of EmailService\<close>

text \<open>
  C5. \<open>send_email\<close> returns one copy for each recipient, and the status of every copy
  depends on the status of the original alone: \<open>SENT\<close> when the original is \<open>READY\<close>,
  \<open>FAILED\<close> for every other status. The function has no raising branch: it returns for
  every message of the store.
\<close>

theorem send_email_status:
  assumes "valid_email h email"
  shows "length (fst (send_email clock email h)) = length (recipient_list h email)
       \<and> (\<forall>c \<in> set (fst (send_email clock email h)).
             status (get_email (snd (send_email clock email h)) c) =
               (if status (get_email h email) = READY then SENT else FAILED))"
  using send_email_copy_status [OF assms] by (simp add: send_email_sent [OF assms])

theorem send_email_status_witness:
  "status (get_email (snd (send_email example_clock 0 ready_store)) 1) = SENT
   \<and> status (get_email (snd (send_email example_clock 0 ready_store)) 2) = SENT
   \<and> status (get_email (snd (send_email example_clock 0 draft_store)) 1) = FAILED
   \<and> status (get_email (snd (send_email example_clock 0 draft_store)) 2) = FAILED"
  using send_email_status [OF store_with_valid, of example_clock READY "ascii ''Hi there''" "ascii ''Hello''" "ascii ''Hello''"]
        send_email_status [OF store_with_valid, of example_clock DRAFT raw_subject "ascii ''Hello''" "[]"]
  by (simp add: ready_store_def draft_store_def store_with_sent store_with_email)

text \<open>
  C6. \<open>send_email\<close> does not mutate its input: after the call the fields of the original
  object (status, date, recipients and all the others) and the elements of its
  recipients list are what they were, and so is every other object that the store held
  before the call.
\<close>

theorem send_email_frame:
  assumes "valid_email h email"
  shows "get_email (snd (send_email clock email h)) email = get_email h email
       \<and> recipient_list (snd (send_email clock email h)) email = recipient_list h email
       \<and> take (length (email_objs h)) (email_objs (snd (send_email clock email h))) = email_objs h
       \<and> take (length (list_objs h)) (list_objs (snd (send_email clock email h))) = list_objs h"
  using assms
  by (simp add: send_email_eq [OF assms] valid_email_def get_email_def get_list_def
        recipient_list_def nth_append)

theorem send_email_frame_witness:
  "status (get_email (snd (send_email example_clock 0 ready_store)) 0) = READY
   \<and> date (get_email (snd (send_email example_clock 0 ready_store)) 0) = 7
   \<and> recipient_list (snd (send_email example_clock 0 ready_store)) 0 = [addr_b, addr_c]"
  using send_email_frame [OF store_with_valid, of example_clock READY "ascii ''Hi there''" "ascii ''Hello''" "ascii ''Hello''"]
  by (simp add: ready_store_def store_with_email store_with_recipients)

text \<open>
  C7. For a message with \<open>n\<close> recipients \<open>send_email\<close> returns \<open>n\<close> copies. They are
  pairwise different \<open>Email\<close> objects, each allocated by the call (none is an object of
  the store before the call), and their recipients lists are pairwise different list
  objects allocated by the call as well, so that nothing mutable is shared between two
  copies or between a copy and the input. The recipients list of the \<open>i\<close>-th copy holds
  the \<open>i\<close>-th recipient of the input and nothing else (the recipient itself, an
  immutable value, is the one of the input); subject, body, sender and preview are
  those of the input.
\<close>

theorem send_email_copies:
  assumes "valid_email h email"
  shows "let sent = fst (send_email clock email h);
             h' = snd (send_email clock email h);
             rs = recipient_list h email
         in length sent = length rs
          \<and> distinct sent
          \<and> distinct (map (\<lambda>c. recipients (get_email h' c)) sent)
          \<and> (\<forall>i < length rs.
                length (email_objs h) \<le> sent ! i \<and> sent ! i < length (email_objs h')
              \<and> length (list_objs h) \<le> recipients (get_email h' (sent ! i))
              \<and> recipients (get_email h' (sent ! i)) < length (list_objs h')
              \<and> recipient_list h' (sent ! i) = [rs ! i]
              \<and> subject (get_email h' (sent ! i)) = subject (get_email h email)
              \<and> body (get_email h' (sent ! i)) = body (get_email h email)
              \<and> sender (get_email h' (sent ! i)) = sender (get_email h email)
              \<and> short_body (get_email h' (sent ! i)) = short_body (get_email h email))"
proof -
  let ?n = "length (email_objs h)"
  let ?rs = "recipient_list h email"
  let ?h' = "snd (send_email clock email h)"
  have sent: "fst (send_email clock email h) = [?n ..< ?n + length ?rs]"
    by (rule send_email_sent [OF assms])
  have rec: "recipients (get_email ?h' (?n + i)) = length (list_objs h) + 2 * i + 1"
    if "i < length ?rs" for i
    by (simp add: send_email_copy [OF assms that] sent_copy_def)
  have "map (\<lambda>c. recipients (get_email ?h' c)) [?n ..< ?n + length ?rs] =
        map (\<lambda>i. length (list_objs h) + 2 * i + 1) [0 ..< length ?rs]"
    by (rule nth_equalityI) (simp_all add: rec)
  moreover have "distinct (map (\<lambda>i. length (list_objs h) + 2 * i + 1) [0 ..< length ?rs])"
    by (simp add: distinct_map inj_on_def)
  ultimately have d: "distinct (map (\<lambda>c. recipients (get_email ?h' c)) [?n ..< ?n + length ?rs])"
    by simp
  have each: "recipient_list ?h' (?n + i) = [?rs ! i]
       \<and> subject (get_email ?h' (?n + i)) = subject (get_email h email)
       \<and> body (get_email ?h' (?n + i)) = body (get_email h email)
       \<and> sender (get_email ?h' (?n + i)) = sender (get_email h email)
       \<and> short_body (get_email ?h' (?n + i)) = short_body (get_email h email)"
    if "i < length ?rs" for i
    using send_email_copy_list [OF assms that, of clock]
    by (simp add: recipient_list_def [of ?h'] send_email_copy [OF assms that] sent_copy_def)
  show ?thesis
    unfolding Let_def sent
    using d each rec by (simp add: send_email_lengths [OF assms])
qed

theorem send_email_copies_witness:
  "recipient_list (snd (send_email example_clock 0 ready_store)) 1 = [addr_b]
   \<and> recipient_list (snd (send_email example_clock 0 ready_store)) 2 = [addr_c]
   \<and> subject (get_email (snd (send_email example_clock 0 ready_store)) 2) = ascii ''Hi there''"
proof -
  have "0 < (2::nat)" and "1 < (2::nat)" by simp_all
  with send_email_copies [OF store_with_valid, of example_clock READY "ascii ''Hi there''" "ascii ''Hello''" "ascii ''Hello''"]
  show ?thesis
    unfolding Let_def ready_store_def store_with_sent store_with_recipients store_with_email
    by fastforce
qed

text \<open>
  C10. The constructor accepts the empty list of recipients. For the message it makes,
  \<open>send_email\<close> returns the empty list and leaves the store as it is, before \<open>prepare\<close>
  as well as after it, and \<open>prepare\<close> sets the status to \<open>INVALID\<close>.
\<close>

theorem empty_recipients_accepted:
  "\<exists>e h1. Email_init subj bdy sndr (ListArg []) d h = Inr (e, h1)
         \<and> valid_email h1 e
         \<and> recipient_list h1 e = []
         \<and> send_email clock e h1 = ([], h1)
         \<and> status (get_email (prepare e h1) e) = INVALID
         \<and> send_email clock e (prepare e h1) = ([], prepare e h1)"
  by (simp add: Email_init_def valid_email_def heap_defs send_email_def prepare_def
        prepare_fields_eq nth_append)

section \<open>Properties of prepare\<close>

lemma prepare_email:
  assumes "self < length (email_objs h)"
  shows "get_email (prepare self h) self =
           prepare_fields (recipient_list h self) (get_email h self)"
  using assms by (simp add: prepare_def heap_defs)

lemma clean_text_bodies:
  "clean_text long_text = long_text"
  "clean_text fifty_text = fifty_text"
  by (simp_all add: clean_text_def long_text_def fifty_text_def str_eval)

lemma length_bodies: "length long_text = 51" "length fifty_text = 50"
  by (simp_all add: long_text_def fifty_text_def ascii_def)

lemma bodies_nonempty: "long_text \<noteq> []" "fifty_text \<noteq> []"
  using length_bodies by auto

lemma store_with_length: "length (email_objs (store_with s subj bdy short)) = 1"
  by (simp add: store_with_def)

text \<open>
  C8. After \<open>prepare\<close> the body is the cleaned body, and the preview is derived from it:
  empty when the cleaned body is empty, the cleaned body itself when it has at most 50
  characters (so exactly 50 characters get no dots), and otherwise its first 47
  characters followed by three dots, which makes exactly 50 characters.
\<close>

theorem prepare_short_body:
  assumes "self < length (email_objs h)"
  shows "let cleaned = clean_text (body (get_email h self));
             self' = get_email (prepare self h) self
         in body self' = cleaned
          \<and> short_body self' =
              (if cleaned = [] then []
               else if length cleaned \<le> 50 then cleaned
               else take 47 cleaned @ ascii ''...'')
          \<and> (50 < length cleaned \<longrightarrow> length (short_body self') = 50)"
  by (simp add: prepare_email [OF assms] prepare_fields_eq spec_short_body_def Let_def ascii_def)

theorem prepare_short_body_witness:
  "short_body (get_email (prepare 0 (store_with DRAFT raw_subject long_text [])) 0) =
     take 47 long_text @ ascii ''...''
   \<and> length (short_body (get_email (prepare 0 (store_with DRAFT raw_subject long_text [])) 0)) = 50
   \<and> short_body (get_email (prepare 0 (store_with DRAFT raw_subject fifty_text [])) 0) = fifty_text
   \<and> short_body (get_email (prepare 0 (store_with DRAFT raw_subject [] [])) 0) = []"
  using prepare_short_body [of 0 "store_with DRAFT raw_subject long_text []"]
        prepare_short_body [of 0 "store_with DRAFT raw_subject fifty_text []"]
        prepare_short_body [of 0 "store_with DRAFT raw_subject [] []"]
  by (simp add: Let_def store_with_length store_with_email clean_text_bodies length_bodies
        bodies_nonempty clean_text_empty ascii_def)

text \<open>
  C9. \<open>prepare\<close> is idempotent: a second call leaves the whole store as the first call
  left it, hence subject, body, preview and status of the message in particular
  (cleaning a cleaned text changes nothing, and preview and status are computed again
  from the same values).
\<close>

theorem prepare_idempotent: "prepare self (prepare self h) = prepare self h"
proof (cases "self < length (email_objs h)")
  case True
  then show ?thesis
    by (simp add: prepare_def heap_defs prepare_fields_idem prepare_fields_recipients)
next
  case False
  then have "(email_objs h)[self := e] = email_objs h" for e
    by (simp add: list_update_beyond)
  then show ?thesis by (simp add: prepare_def heap_defs)
qed

section \<open>Properties of the constructor of Email\<close>

lemma Email_init_TypeError:
  "Email_init subj bdy sndr rcpts d h = Inl TypeError \<longleftrightarrow>
     (\<exists>v. rcpts = Val v \<and> \<not> isinstance_EmailAddress v)"
proof (cases rcpts)
  case (Val v)
  then show ?thesis by (cases v) (simp_all add: Email_init_def heap_defs)
next
  case (ListArg xs)
  then show ?thesis by (simp add: Email_init_def heap_defs)
qed

lemma Email_init_list:
  "Email_init subj bdy sndr (ListArg xs) d h =
     Inr (length (email_objs h),
          h\<lparr>list_objs := list_objs h @ [xs],
            email_objs := email_objs h @
              [\<lparr>subject = subj, body = bdy, sender = sndr, recipients = length (list_objs h),
                date = d, short_body = [], status = DRAFT\<rparr>]\<rparr>)"
  by (simp add: Email_init_def heap_defs)

lemma Email_init_single:
  "Email_init subj bdy sndr (Val (Addr a)) d h = Email_init subj bdy sndr (ListArg [Addr a]) d h"
  by (simp add: Email_init_def)

lemma Email_init_accepts:
  "\<exists>e h'. Email_init subj bdy sndr (ListArg xs) d h = Inr (e, h')
     \<and> e = length (email_objs h)
     \<and> recipients (get_email h' e) = length (list_objs h)
     \<and> email_objs h' = email_objs h @ [get_email h' e]
     \<and> list_objs h' = list_objs h @ [xs]
     \<and> valid_email h' e
     \<and> recipient_list h' e = xs
     \<and> status (get_email h' e) = DRAFT
     \<and> status (get_email (prepare e h') e) =
         (if clean_text subj \<noteq> [] \<and> clean_text bdy \<noteq> [] \<and> truthy sndr \<and> xs \<noteq> []
             \<and> list_all isinstance_EmailAddress xs
          then READY else INVALID)"
  unfolding Email_init_list
  by (simp add: valid_email_def heap_defs prepare_def prepare_fields_eq)

text \<open>
  C2 as the code has it. The constructor raises \<open>TypeError\<close> exactly when \<open>recipients\<close>
  is neither an \<open>EmailAddress\<close> nor a list. A single address becomes a one-element
  list, and a list is accepted whatever its elements are and copied in order. In both
  cases the list of the message is a new object: the message and its list are
  allocated by the call, and the objects that the store held before are what they
  were. The elements are not checked at construction: the message starts as \<open>DRAFT\<close>,
  and \<open>prepare\<close> makes it \<open>READY\<close> only when every element is an \<open>EmailAddress\<close> (and
  subject, body, sender and the list are not empty), and \<open>INVALID\<close> otherwise.
\<close>

theorem Email_init_shapes:
  "(Email_init subj bdy sndr rcpts d h = Inl TypeError \<longleftrightarrow>
      (\<exists>v. rcpts = Val v \<and> \<not> isinstance_EmailAddress v))
   \<and> (\<exists>e h'. Email_init subj bdy sndr (Val (Addr a)) d h = Inr (e, h')
         \<and> e = length (email_objs h)
         \<and> recipients (get_email h' e) = length (list_objs h)
         \<and> email_objs h' = email_objs h @ [get_email h' e]
         \<and> list_objs h' = list_objs h @ [[Addr a]]
         \<and> valid_email h' e
         \<and> recipient_list h' e = [Addr a]
         \<and> status (get_email h' e) = DRAFT
         \<and> status (get_email (prepare e h') e) =
             (if clean_text subj \<noteq> [] \<and> clean_text bdy \<noteq> [] \<and> truthy sndr
              then READY else INVALID))
   \<and> (\<exists>e h'. Email_init subj bdy sndr (ListArg xs) d h = Inr (e, h')
         \<and> e = length (email_objs h)
         \<and> recipients (get_email h' e) = length (list_objs h)
         \<and> email_objs h' = email_objs h @ [get_email h' e]
         \<and> list_objs h' = list_objs h @ [xs]
         \<and> valid_email h' e
         \<and> recipient_list h' e = xs
         \<and> status (get_email h' e) = DRAFT
         \<and> status (get_email (prepare e h') e) =
             (if clean_text subj \<noteq> [] \<and> clean_text bdy \<noteq> [] \<and> truthy sndr \<and> xs \<noteq> []
                 \<and> list_all isinstance_EmailAddress xs
              then READY else INVALID))"
  using Email_init_accepts [of subj bdy sndr "[Addr a]" d h]
        Email_init_accepts [of subj bdy sndr xs d h]
  by (simp add: Email_init_TypeError Email_init_single)

theorem Email_init_shapes_witness:
  "Email_init (ascii ''Hi'') (ascii ''Hello'') addr_a (Val (TupleV [addr_b])) 7 empty_store =
     Inl TypeError
   \<and> Email_init (ascii ''Hi'') (ascii ''Hello'') addr_a (Val NoneV) 7 empty_store = Inl TypeError
   \<and> (\<exists>e h'. Email_init (ascii ''Hi'') (ascii ''Hello'') addr_a
                 (ListArg [StrV (ascii ''b@example.com'')]) 7 empty_store = Inr (e, h')
            \<and> list_objs h' = [[StrV (ascii ''b@example.com'')]]
            \<and> status (get_email (prepare e h') e) = INVALID)
   \<and> (\<exists>e h'. Email_init (ascii ''Hi'') (ascii ''Hello'') addr_a
                 (ListArg [addr_b, addr_c]) 7 empty_store = Inr (e, h')
            \<and> list_objs h' = [[addr_b, addr_c]]
            \<and> status (get_email (prepare e h') e) = READY)"
proof -
  note t = Email_init_shapes [of "ascii ''Hi''" "ascii ''Hello''" addr_a _ 7 empty_store]
  have c: "clean_text (ascii ''Hi'') \<noteq> []" "clean_text (ascii ''Hello'') \<noteq> []"
    by (rule clean_text_hi, rule hello_clean)
  have 1: "Email_init (ascii ''Hi'') (ascii ''Hello'') addr_a (Val (TupleV [addr_b])) 7 empty_store =
     Inl TypeError"
    using t [of "Val (TupleV [addr_b])"] by simp
  have 2: "Email_init (ascii ''Hi'') (ascii ''Hello'') addr_a (Val NoneV) 7 empty_store = Inl TypeError"
    using t [of "Val NoneV"] by simp
  have 3: "\<exists>e h'. Email_init (ascii ''Hi'') (ascii ''Hello'') addr_a
                 (ListArg [StrV (ascii ''b@example.com'')]) 7 empty_store = Inr (e, h')
            \<and> list_objs h' = [[StrV (ascii ''b@example.com'')]]
            \<and> status (get_email (prepare e h') e) = INVALID"
    using t [of "ListArg []" "EmailAddress (ascii ''b@example.com'')" "[StrV (ascii ''b@example.com'')]"]
    by (auto simp: empty_store_def)
  have 4: "\<exists>e h'. Email_init (ascii ''Hi'') (ascii ''Hello'') addr_a
                 (ListArg [addr_b, addr_c]) 7 empty_store = Inr (e, h')
            \<and> list_objs h' = [[addr_b, addr_c]]
            \<and> status (get_email (prepare e h') e) = READY"
    using t [of "ListArg []" "EmailAddress (ascii ''b@example.com'')" "[addr_b, addr_c]"] c
    by (auto simp: empty_store_def addr_a_def addr_b_def addr_c_def)
  from 1 2 3 4 show ?thesis by blast
qed

text \<open>
  C2 as stated fails: a list holding a string is neither a single address nor a
  sequence of addresses, and the constructor accepts it.
\<close>

theorem Email_init_list_of_strings:
  "\<not> spec_recipients_shape (ListArg [StrV (ascii ''b@example.com'')])
   \<and> Email_init (ascii ''Hi'') (ascii ''Hello'') addr_a (ListArg [StrV (ascii ''b@example.com'')])
        7 empty_store =
      Inr (0, \<lparr>email_objs = [\<lparr>subject = ascii ''Hi'', body = ascii ''Hello'', sender = addr_a,
                               recipients = 0, date = 7, short_body = [], status = DRAFT\<rparr>],
               list_objs = [[StrV (ascii ''b@example.com'')]]\<rparr>)"
  by (simp add: Email_init_def heap_defs empty_store_def)

section \<open>Status transitions\<close>








end
